theory Spec2Isabelle
  imports Main "HOL-Library.AList" "HOL-Library.Sublist"
begin

section \<open>The decomposition registry of \<^verbatim>\<open>torch/_decomp/__init__.py\<close>\<close>

text \<open>
  The module keeps one dictionary per decomposition type (\<^verbatim>\<open>post_autograd\<close>,
  \<^verbatim>\<open>pre_autograd\<close>, \<^verbatim>\<open>meta\<close>), fills them through the decorator
  \<^verbatim>\<open>register_decomposition\<close>, reads them with \<^verbatim>\<open>get_decompositions\<close> and, once at
  import time, runs \<^verbatim>\<open>activate_meta\<close> over all of them.

  Python dictionaries keep insertion order, and \<^verbatim>\<open>activate_meta\<close> iterates over them, so
  a dictionary is an association list with distinct keys: \<^verbatim>\<open>d[k] = v\<close> is
  \<^const>\<open>AList.update\<close> (the value is replaced in place, a new key goes to the end),
  \<^verbatim>\<open>k in d\<close> is membership in the keys, and \<^verbatim>\<open>for k in d\<close> walks the list.
  Mutation is explicit state passing; an exception is a value of type \<open>error\<close>, returned
  together with the state the exception leaves behind.
\<close>

subsection \<open>Operators: what the module reads of \<^verbatim>\<open>OpOverload\<close> and \<^verbatim>\<open>OpOverloadPacket\<close>\<close>

datatype AliasInfo = AliasInfo (is_write: bool)

datatype Argument = Argument (alias_info: "AliasInfo option")

datatype FunctionSchema =
  FunctionSchema (name: string) (overload_name: string) (arguments: "Argument list")

datatype OpOverloadPacket = OpOverloadPacket (qualified_op_name: string)

datatype OpOverload =
  OpOverload (schema: FunctionSchema) (overloadpacket: OpOverloadPacket)

text \<open>
  A leaf of the registration target, and an element of the sequence given to
  \<^verbatim>\<open>get_decompositions\<close>: the two \<^verbatim>\<open>isinstance\<close> tests of the module tell an
  \<^verbatim>\<open>OpOverload\<close> from an \<^verbatim>\<open>OpOverloadPacket\<close> from anything else.
\<close>

datatype aten_op = Overload OpOverload | Packet OpOverloadPacket | NotAnOperator

text \<open>
  \<^verbatim>\<open>tree_map\<close> accepts arbitrarily nested containers and visits their leaves from left
  to right.
\<close>

datatype pytree = Leaf aten_op | Node "pytree list"

fun tree_flatten :: "pytree \<Rightarrow> aten_op list" where
  "tree_flatten (Leaf x) = [x]"
| "tree_flatten (Node ts) = concat (map tree_flatten ts)"

subsection \<open>Exceptions\<close>

datatype error =
  AssertionError
| RuntimeError_duplicate_registrations OpOverload
| TypeError_multiple_values string
| IndexError
| KeyError

subsection \<open>Callables and the unpacking of a tuple \<^verbatim>\<open>out\<close>\<close>

text \<open>
  Of the decorated function \<^verbatim>\<open>f\<close> the decorator reads the annotation of \<^verbatim>\<open>out\<close> and,
  when that is a tuple type, the field names of the return annotation
  (\<^verbatim>\<open>sig.return_annotation._fields\<close>). \<open>tuple_out f = Some out_names\<close> stands for a
  function whose \<^verbatim>\<open>out\<close> is annotated as a tuple and whose return type is a named tuple
  with the fields \<open>out_names\<close>; \<open>None\<close> for every other function. \<open>code f\<close> is the
  function itself.
\<close>

datatype 'c py_function = PyFunction (code: 'c) (tuple_out: "string list option")

text \<open>
  What ends up in a table is \<^verbatim>\<open>fn\<close>: the function \<^verbatim>\<open>f\<close> itself, or the closure
  \<^verbatim>\<open>_fn\<close> over \<^verbatim>\<open>f\<close> and \<^verbatim>\<open>out_names\<close>.
\<close>

datatype 'c registered =
  Function "'c py_function"
| Unpacking "'c py_function" "string list"

text \<open>Python values as far as \<^verbatim>\<open>_fn\<close> looks at them.\<close>

datatype 'v pyval = PyNone | Val 'v | PyTuple "'v pyval list"

type_synonym 'v kwargs = "(string \<times> 'v pyval) list"

type_synonym ('v, 'r) body = "'v pyval list \<Rightarrow> 'v kwargs \<Rightarrow> 'r"

text \<open>\<^verbatim>\<open>kwargs.pop(o, None)\<close>: the value and the dictionary without the key.\<close>

definition kwargs_pop :: "'v kwargs \<Rightarrow> string \<Rightarrow> 'v pyval \<times> 'v kwargs" where
  "kwargs_pop kwargs o' =
     (case map_of kwargs o' of
        None \<Rightarrow> (PyNone, kwargs)
      | Some v \<Rightarrow> (v, filter (\<lambda>kv. fst kv \<noteq> o') kwargs))"

text \<open>\<^verbatim>\<open>tuple(kwargs.pop(o, None) for o in out_names)\<close>, popping from left to right.\<close>

fun pop_out_kwargs :: "'v kwargs \<Rightarrow> string list \<Rightarrow> 'v pyval list \<times> 'v kwargs" where
  "pop_out_kwargs kwargs [] = ([], kwargs)"
| "pop_out_kwargs kwargs (o' # out_names) =
     (case kwargs_pop kwargs o' of
        (v, kwargs') \<Rightarrow>
          (case pop_out_kwargs kwargs' out_names of
             (vs, kwargs'') \<Rightarrow> (v # vs, kwargs'')))"

text \<open>
  The closure \<^verbatim>\<open>_fn(*args, **kwargs)\<close>. \<^verbatim>\<open>out_kwargs[0]\<close> raises on the empty tuple, the
  assertion checks that all the slots are \<^verbatim>\<open>None\<close> or none is, and a call of \<^verbatim>\<open>f\<close> with
  \<^verbatim>\<open>**kwargs\<close> and \<^verbatim>\<open>out=\<close> raises when \<^verbatim>\<open>kwargs\<close> still has the key \<^verbatim>\<open>out\<close>.
\<close>

definition unpacking_fn ::
  "('v, 'r) body \<Rightarrow> string list \<Rightarrow> 'v pyval list \<Rightarrow> 'v kwargs \<Rightarrow> error + 'r" where
  "unpacking_fn f out_names args kwargs =
     (case pop_out_kwargs kwargs out_names of
        (out_kwargs, kwargs') \<Rightarrow>
          (case out_kwargs of
             [] \<Rightarrow> Inl IndexError
           | first # _ \<Rightarrow>
               (let is_none = (first = PyNone) in
                if \<not> list_all (\<lambda>o'. (o' = PyNone) = is_none) out_kwargs
                then Inl AssertionError
                else if ''out'' \<in> set (map fst kwargs')
                then Inl (TypeError_multiple_values ''out'')
                else Inr (f args
                       (kwargs' @ [(''out'', if is_none then PyNone else PyTuple out_kwargs)])))))"

text \<open>Calling what a table holds.\<close>

fun call_registered ::
  "('v, 'r) body registered \<Rightarrow> 'v pyval list \<Rightarrow> 'v kwargs \<Rightarrow> error + 'r" where
  "call_registered (Function f) args kwargs = Inr (code f args kwargs)"
| "call_registered (Unpacking f out_names) args kwargs =
     unpacking_fn (code f) out_names args kwargs"

subsection \<open>The tables\<close>

type_synonym 'c table = "(OpOverload \<times> 'c registered) list"

record 'c state =
  global_decomposition_table :: "string \<Rightarrow> 'c table"
  disabled_meta_decomps :: "OpOverload set"

text \<open>The module as it is before the first registration.\<close>

definition initial_state :: "'c state" where
  "initial_state =
     \<lparr>global_decomposition_table = (\<lambda>_. []), disabled_meta_decomps = {}\<rparr>"

definition dict_contains :: "'k \<Rightarrow> ('k \<times> 'v) list \<Rightarrow> bool" where
  "dict_contains k d = (k \<in> set (map fst d))"

subsection \<open>\<^verbatim>\<open>register_decomposition\<close>\<close>

text \<open>
  The loop \<^verbatim>\<open>for op_overload in overloads\<close> of \<^verbatim>\<open>add_op_to_table\<close>. The exception
  leaves the dictionary as the earlier iterations made it.
\<close>

fun add_overloads ::
  "'c registered \<Rightarrow> 'c table \<Rightarrow> OpOverload list \<Rightarrow> error option \<times> 'c table" where
  "add_overloads fn registry [] = (None, registry)"
| "add_overloads fn registry (op_overload # overloads) =
     (if dict_contains op_overload registry
      then (Some (RuntimeError_duplicate_registrations op_overload), registry)
      else add_overloads fn (AList.update op_overload fn registry) overloads)"

text \<open>
  The first half of \<^verbatim>\<open>add_op_to_table\<close> fills the list \<^verbatim>\<open>overloads\<close>.
  \<open>packet_overloads p\<close> is the list \<^verbatim>\<open>[getattr(p, ol) for ol in p.overloads()]\<close> that the
  hosting runtime gives for a packet; the assertion fails on a leaf that is neither an
  overload nor a packet.
\<close>

definition overloads_of ::
  "(OpOverloadPacket \<Rightarrow> OpOverload list) \<Rightarrow> aten_op \<Rightarrow> error + OpOverload list" where
  "overloads_of packet_overloads aten_op =
     (case aten_op of
        Overload op_overload \<Rightarrow> Inr [op_overload]
      | Packet p \<Rightarrow> Inr (packet_overloads p)
      | NotAnOperator \<Rightarrow> Inl AssertionError)"

definition add_op_to_table ::
  "(OpOverloadPacket \<Rightarrow> OpOverload list) \<Rightarrow> 'c registered \<Rightarrow> 'c table \<Rightarrow> aten_op
     \<Rightarrow> error option \<times> 'c table" where
  "add_op_to_table packet_overloads fn registry aten_op =
     (case overloads_of packet_overloads aten_op of
        Inl e \<Rightarrow> (Some e, registry)
      | Inr overloads \<Rightarrow> add_overloads fn registry overloads)"

text \<open>\<^verbatim>\<open>tree_map(add_op_to_table, aten_op)\<close> over the flattened leaves.\<close>

fun tree_map_add ::
  "(OpOverloadPacket \<Rightarrow> OpOverload list) \<Rightarrow> 'c registered \<Rightarrow> 'c table \<Rightarrow> aten_op list
     \<Rightarrow> error option \<times> 'c table" where
  "tree_map_add packet_overloads fn registry [] = (None, registry)"
| "tree_map_add packet_overloads fn registry (leaf # leaves) =
     (case add_op_to_table packet_overloads fn registry leaf of
        (Some e, registry') \<Rightarrow> (Some e, registry')
      | (None, registry') \<Rightarrow> tree_map_add packet_overloads fn registry' leaves)"

text \<open>
  The first half of the decorator chooses \<^verbatim>\<open>fn\<close>: the closure \<^verbatim>\<open>_fn\<close> when \<^verbatim>\<open>out\<close> is
  annotated as a tuple, \<^verbatim>\<open>f\<close> otherwise.
\<close>

definition wrap_out :: "'c py_function \<Rightarrow> 'c registered" where
  "wrap_out f =
     (case tuple_out f of
        Some out_names \<Rightarrow> Unpacking f out_names
      | None \<Rightarrow> Function f)"

text \<open>
  The decorator. With \<open>registry = None\<close> it works on the table of \<open>ty\<close>; a dictionary of
  the caller's own is updated instead and handed back. The result is the exception or
  \<^verbatim>\<open>fn\<close>, the caller's dictionary, and the module state.
\<close>

definition decomposition_decorator ::
  "(OpOverloadPacket \<Rightarrow> OpOverload list) \<Rightarrow> pytree \<Rightarrow> 'c table option \<Rightarrow> string
     \<Rightarrow> 'c py_function \<Rightarrow> 'c state
     \<Rightarrow> (error + 'c registered) \<times> 'c table option \<times> 'c state" where
  "decomposition_decorator packet_overloads aten_op registry ty f st =
     (let fn = wrap_out f
      in case registry of
           None \<Rightarrow>
             (case tree_map_add packet_overloads fn (global_decomposition_table st ty)
                     (tree_flatten aten_op) of
                (raised, registry') \<Rightarrow>
                  ((case raised of Some e \<Rightarrow> Inl e | None \<Rightarrow> Inr fn),
                   None,
                   st\<lparr>global_decomposition_table :=
                        (global_decomposition_table st)(ty := registry')\<rparr>))
         | Some own \<Rightarrow>
             (case tree_map_add packet_overloads fn own (tree_flatten aten_op) of
                (raised, registry') \<Rightarrow>
                  ((case raised of Some e \<Rightarrow> Inl e | None \<Rightarrow> Inr fn),
                   Some registry',
                   st)))"

text \<open>
  \<^verbatim>\<open>register_decomposition(aten_op, registry, type=ty, disable_meta=...)(f)\<close>. The
  argument \<^verbatim>\<open>disable_meta\<close> is accepted and never read: the statements that used it are
  commented out in the source.
\<close>

definition register_decomposition ::
  "(OpOverloadPacket \<Rightarrow> OpOverload list) \<Rightarrow> pytree \<Rightarrow> 'c table option \<Rightarrow> string \<Rightarrow> bool
     \<Rightarrow> 'c py_function \<Rightarrow> 'c state
     \<Rightarrow> (error + 'c registered) \<times> 'c table option \<times> 'c state" where
  "register_decomposition packet_overloads aten_op registry ty disable_meta f st =
     (if ty \<notin> {''post_autograd'', ''pre_autograd'', ''meta''}
      then (Inl AssertionError, registry, st)
      else decomposition_decorator packet_overloads aten_op registry ty f st)"

subsection \<open>\<^verbatim>\<open>get_decompositions\<close>\<close>

text \<open>\<^verbatim>\<open>d[k]\<close> on a dictionary raises \<^verbatim>\<open>KeyError\<close> for a missing key.\<close>

definition dict_getitem :: "('k \<times> 'v) list \<Rightarrow> 'k \<Rightarrow> error + 'v" where
  "dict_getitem d k = (case map_of d k of None \<Rightarrow> Inl KeyError | Some v \<Rightarrow> Inr v)"

text \<open>
  \<^verbatim>\<open>packets_to_overloads\<close> is a \<^verbatim>\<open>defaultdict(list)\<close>: the loop appends every key of the
  registry to the list of its \<^verbatim>\<open>overloadpacket\<close>, starting a list where there is none.
\<close>

fun index_packets ::
  "(OpOverloadPacket \<times> OpOverload list) list \<Rightarrow> OpOverload list
     \<Rightarrow> (OpOverloadPacket \<times> OpOverload list) list" where
  "index_packets packets_to_overloads [] = packets_to_overloads"
| "index_packets packets_to_overloads (opo # keys) =
     index_packets
       (AList.update (overloadpacket opo)
          ((case map_of packets_to_overloads (overloadpacket opo) of
              None \<Rightarrow> []
            | Some opos \<Rightarrow> opos) @ [opo])
          packets_to_overloads)
       keys"

text \<open>
  \<^verbatim>\<open>for op_overload in packets_to_overloads[op]:
      decompositions[op_overload] = registry[op_overload]\<close>
\<close>

fun copy_overloads ::
  "'c table \<Rightarrow> 'c table \<Rightarrow> OpOverload list \<Rightarrow> error + 'c table" where
  "copy_overloads registry decompositions [] = Inr decompositions"
| "copy_overloads registry decompositions (op_overload # opos) =
     (case dict_getitem registry op_overload of
        Inl e \<Rightarrow> Inl e
      | Inr fn \<Rightarrow>
          copy_overloads registry (AList.update op_overload fn decompositions) opos)"

text \<open>The loop \<^verbatim>\<open>for op in aten_ops\<close>.\<close>

fun collect_decompositions ::
  "'c table \<Rightarrow> (OpOverloadPacket \<times> OpOverload list) list \<Rightarrow> 'c table \<Rightarrow> aten_op list
     \<Rightarrow> error + 'c table" where
  "collect_decompositions registry packets_to_overloads decompositions [] =
     Inr decompositions"
| "collect_decompositions registry packets_to_overloads decompositions (op # aten_ops) =
     (case op of
        Packet p \<Rightarrow>
          (if dict_contains p packets_to_overloads
           then (case dict_getitem packets_to_overloads p of
                   Inl e \<Rightarrow> Inl e
                 | Inr opos \<Rightarrow>
                     (case copy_overloads registry decompositions opos of
                        Inl e \<Rightarrow> Inl e
                      | Inr decompositions' \<Rightarrow>
                          collect_decompositions registry packets_to_overloads
                            decompositions' aten_ops))
           else collect_decompositions registry packets_to_overloads decompositions aten_ops)
      | Overload op_overload \<Rightarrow>
          (if dict_contains op_overload registry
           then (case dict_getitem registry op_overload of
                   Inl e \<Rightarrow> Inl e
                 | Inr fn \<Rightarrow>
                     collect_decompositions registry packets_to_overloads
                       (AList.update op_overload fn decompositions) aten_ops)
           else collect_decompositions registry packets_to_overloads decompositions aten_ops)
      | NotAnOperator \<Rightarrow>
          collect_decompositions registry packets_to_overloads decompositions aten_ops)"

definition get_decompositions ::
  "aten_op list \<Rightarrow> string \<Rightarrow> 'c state \<Rightarrow> error + 'c table" where
  "get_decompositions aten_ops ty st =
     (if ty \<notin> {''post_autograd'', ''pre_autograd'', ''meta''}
      then Inl AssertionError
      else let registry = global_decomposition_table st ty;
               packets_to_overloads = index_packets [] (map fst registry)
           in collect_decompositions registry packets_to_overloads [] aten_ops)"

subsection \<open>\<^verbatim>\<open>activate_meta\<close>\<close>

text \<open>
  The inner loop of the merge, \<^verbatim>\<open>for opo in registry\<close> with \<^verbatim>\<open>registry[opo]\<close> read in
  the body: a walk over the items of the dictionary.
\<close>

fun merge_registry :: "'c table \<Rightarrow> 'c table \<Rightarrow> 'c table" where
  "merge_registry activate_meta_table [] = activate_meta_table"
| "merge_registry activate_meta_table ((opo, fn) # registry) =
     merge_registry
       (if \<not> dict_contains opo activate_meta_table
        then AList.update opo fn activate_meta_table
        else activate_meta_table)
       registry"

definition build_activate_meta_table :: "'c state \<Rightarrow> 'c table" where
  "build_activate_meta_table st =
     fold (\<lambda>ty activate_meta_table.
             merge_registry activate_meta_table (global_decomposition_table st ty))
       [''meta'', ''post_autograd'', ''pre_autograd''] []"

text \<open>
  The calls into the hosting runtime, in the order they are made:
  \<^verbatim>\<open>op_overload.py_impl(torch._C.DispatchKey.Meta)(fn)\<close>,
  \<^verbatim>\<open>torch._C._dispatch_dump(name)\<close> and \<^verbatim>\<open>meta_lib.impl(op_overload, fn)\<close>.
  The runtime is not part of the module: a run is the sequence of calls the module makes,
  and \<open>dump\<close> is what the runtime answers to \<^verbatim>\<open>_dispatch_dump\<close>.
\<close>

datatype 'c host_call =
  Call_py_impl_Meta OpOverload "'c registered"
| Call_dispatch_dump string
| Call_meta_lib_impl OpOverload "'c registered"

definition dispatch_name :: "OpOverload \<Rightarrow> string" where
  "dispatch_name op_overload =
     (if overload_name (schema op_overload) \<noteq> []
      then name (schema op_overload) @ ''.'' @ overload_name (schema op_overload)
      else name (schema op_overload))"

definition is_view_op :: "OpOverload \<Rightarrow> bool" where
  "is_view_op op_overload =
     list_ex (\<lambda>a. case alias_info a of
                     None \<Rightarrow> False
                   | Some info \<Rightarrow> \<not> is_write info)
       (arguments (schema op_overload))"

fun activate_items :: "(string \<Rightarrow> string) \<Rightarrow> 'c table \<Rightarrow> 'c host_call list" where
  "activate_items dump [] = []"
| "activate_items dump ((op_overload, fn) # items) =
     (let name = dispatch_name op_overload;
          dispatch_key_registration = dump name
      in [Call_py_impl_Meta op_overload fn, Call_dispatch_dump name]
         @ (if sublist ''CompositeImplicitAutograd'' dispatch_key_registration then []
            else if is_view_op op_overload then []
            else [Call_meta_lib_impl op_overload fn])
         @ activate_items dump items)"

definition activate_meta :: "(string \<Rightarrow> string) \<Rightarrow> 'c state \<Rightarrow> 'c host_call list" where
  "activate_meta dump st = activate_items dump (build_activate_meta_table st)"

subsection \<open>Vocabulary of the statements\<close>

text \<open>
  The concrete overloads a registration target stands for, in the order in which
  \<^verbatim>\<open>tree_map\<close> and \<^verbatim>\<open>add_op_to_table\<close> reach them.
\<close>

definition leaf_overloads ::
  "(OpOverloadPacket \<Rightarrow> OpOverload list) \<Rightarrow> aten_op list \<Rightarrow> OpOverload list" where
  "leaf_overloads packet_overloads leaves =
     concat (map (\<lambda>leaf. case overloads_of packet_overloads leaf of
                            Inl e \<Rightarrow> []
                          | Inr overloads \<Rightarrow> overloads)
              leaves)"

definition expanded_overloads ::
  "(OpOverloadPacket \<Rightarrow> OpOverload list) \<Rightarrow> pytree \<Rightarrow> OpOverload list" where
  "expanded_overloads packet_overloads aten_op =
     leaf_overloads packet_overloads (tree_flatten aten_op)"

text \<open>
  \<open>dup\<close> is the first overload of the list that is a key already when its turn comes
  (a key of the registry, or an overload that stands earlier in the list); \<open>pre\<close> are
  the overloads before it.
\<close>

definition first_duplicate ::
  "'c table \<Rightarrow> OpOverload list \<Rightarrow> OpOverload list \<Rightarrow> OpOverload \<Rightarrow> bool" where
  "first_duplicate registry overloads pre dup =
     ((\<exists>post. overloads = pre @ dup # post) \<and> distinct pre
      \<and> (\<forall>opo \<in> set pre. \<not> dict_contains opo registry)
      \<and> (dict_contains dup registry \<or> dup \<in> set pre))"

text \<open>
  An overload is found by a query when it is a key of the registry and was requested,
  itself or through its packet.
\<close>

definition found :: "'c table \<Rightarrow> aten_op list \<Rightarrow> OpOverload \<Rightarrow> bool" where
  "found registry aten_ops opo =
     (dict_contains opo registry
      \<and> (Overload opo \<in> set aten_ops \<or> Packet (overloadpacket opo) \<in> set aten_ops))"

subsection \<open>Example operators\<close>

definition add_packet :: OpOverloadPacket where
  "add_packet = OpOverloadPacket ''aten::add''"

definition add_Tensor :: OpOverload where
  "add_Tensor =
     OpOverload (FunctionSchema ''aten::add'' ''Tensor'' [Argument None, Argument None])
       add_packet"

definition add_Scalar :: OpOverload where
  "add_Scalar =
     OpOverload (FunctionSchema ''aten::add'' ''Scalar'' [Argument None, Argument None])
       add_packet"

definition add_out :: OpOverload where
  "add_out =
     OpOverload
       (FunctionSchema ''aten::add'' ''out''
          [Argument None, Argument None, Argument (Some (AliasInfo True))])
       add_packet"

definition view_default :: OpOverload where
  "view_default =
     OpOverload
       (FunctionSchema ''aten::view'' [] [Argument (Some (AliasInfo False)), Argument None])
       (OpOverloadPacket ''aten::view'')"

definition example_overloads :: "OpOverloadPacket \<Rightarrow> OpOverload list" where
  "example_overloads p =
     (if p = add_packet then [add_Tensor, add_Scalar, add_out]
      else if p = OpOverloadPacket ''aten::view'' then [view_default]
      else [])"

definition example_dump :: "string \<Rightarrow> string" where
  "example_dump n =
     (if n = ''aten::add.Scalar''
      then ''name: aten::add.Scalar CompositeImplicitAutograd[alias]: registered''
      else ''name: '' @ n @ '' CPU: registered'')"

definition f1 :: "nat py_function" where
  "f1 = PyFunction 1 None"

definition f2 :: "nat py_function" where
  "f2 = PyFunction 2 None"

definition meta_has_Scalar :: "nat state" where
  "meta_has_Scalar =
     initial_state\<lparr>global_decomposition_table :=
       (\<lambda>ty. if ty = ''meta'' then [(add_Scalar, Function f1)] else [])\<rparr>"

definition meta_has_Tensor_too :: "nat state" where
  "meta_has_Tensor_too =
     initial_state\<lparr>global_decomposition_table :=
       (\<lambda>ty. if ty = ''meta''
             then [(add_Scalar, Function f1), (add_Tensor, Function f2)] else [])\<rparr>"

definition post_has_add :: "nat state" where
  "post_has_add =
     initial_state\<lparr>global_decomposition_table :=
       (\<lambda>ty. if ty = ''post_autograd''
             then [(add_Tensor, Function f1), (add_Scalar, Function f1),
                   (add_out, Function f1)] else [])\<rparr>"

definition post_has_Tensor_Scalar :: "nat state" where
  "post_has_Tensor_Scalar =
     initial_state\<lparr>global_decomposition_table :=
       (\<lambda>ty. if ty = ''post_autograd''
             then [(add_Tensor, Function f1), (add_Scalar, Function f1)] else [])\<rparr>"

definition activation_example :: "nat state" where
  "activation_example =
     initial_state\<lparr>global_decomposition_table :=
       (\<lambda>ty. if ty = ''meta''
               then [(add_Tensor, Function f2), (add_Scalar, Function f2)]
             else if ty = ''post_autograd''
               then [(add_Tensor, Function f1), (view_default, Function f1)]
             else if ty = ''pre_autograd''
               then [(add_out, Function f1), (add_Scalar, Function f1)]
             else [])\<rparr>"

section \<open>Registration\<close>

subsection \<open>The insertion loop\<close>


lemma update_fresh:
  "\<not> dict_contains k d \<Longrightarrow> AList.update k v d = d @ [(k, v)]"
  by (induction d) (auto simp: dict_contains_def)

lemma dict_contains_append:
  "dict_contains k (d @ e) = (dict_contains k d \<or> dict_contains k e)"
  by (auto simp: dict_contains_def)

lemma dict_contains_map_of: "dict_contains k d = (map_of d k \<noteq> None)"
  by (simp add: dict_contains_def map_of_eq_None_iff)

lemma first_duplicate_Cons:
  assumes "\<not> dict_contains opo registry"
    and "first_duplicate (registry @ [(opo, fn)]) overloads pre dup"
  shows "first_duplicate registry (opo # overloads) (opo # pre) dup"
  using assms by (auto simp: first_duplicate_def dict_contains_def)

lemma add_overloads_cases:
  "(distinct overloads \<and> (\<forall>opo \<in> set overloads. \<not> dict_contains opo registry)
      \<and> add_overloads fn registry overloads =
          (None, registry @ map (\<lambda>opo. (opo, fn)) overloads))
   \<or> (\<exists>pre dup. first_duplicate registry overloads pre dup
         \<and> add_overloads fn registry overloads =
             (Some (RuntimeError_duplicate_registrations dup),
              registry @ map (\<lambda>opo. (opo, fn)) pre))"
proof (induction overloads arbitrary: registry)
  case Nil
  show ?case by simp
next
  case (Cons opo overloads)
  show ?case
  proof (cases "dict_contains opo registry")
    case True
    have "first_duplicate registry (opo # overloads) [] opo"
      using True by (simp add: first_duplicate_def)
    with True show ?thesis by fastforce
  next
    case False
    let ?r = "registry @ [(opo, fn)]"
    have step: "add_overloads fn registry (opo # overloads) = add_overloads fn ?r overloads"
      using False by (simp add: update_fresh)
    from Cons.IH[of ?r] show ?thesis
    proof (elim disjE conjE exE)
      assume "distinct overloads" "\<forall>x \<in> set overloads. \<not> dict_contains x ?r"
        and "add_overloads fn ?r overloads = (None, ?r @ map (\<lambda>opo. (opo, fn)) overloads)"
      with False step show ?thesis
        by (auto simp: dict_contains_def)
    next
      fix pre dup
      assume "first_duplicate ?r overloads pre dup"
        and "add_overloads fn ?r overloads =
             (Some (RuntimeError_duplicate_registrations dup), ?r @ map (\<lambda>opo. (opo, fn)) pre)"
      with False step first_duplicate_Cons[OF False, of fn overloads pre dup]
      have "first_duplicate registry (opo # overloads) (opo # pre) dup
          \<and> add_overloads fn registry (opo # overloads) =
             (Some (RuntimeError_duplicate_registrations dup),
              registry @ map (\<lambda>opo. (opo, fn)) (opo # pre))"
        by simp
      then show ?thesis by blast
    qed
  qed
qed

lemma first_duplicate_append_left:
  "first_duplicate registry overloads pre dup \<Longrightarrow>
   first_duplicate registry (overloads @ rest) pre dup"
  by (auto simp: first_duplicate_def)

lemma first_duplicate_append_right:
  assumes "distinct overloads" "\<forall>opo \<in> set overloads. \<not> dict_contains opo registry"
    and "first_duplicate (registry @ map (\<lambda>opo. (opo, fn)) overloads) rest pre dup"
  shows "first_duplicate registry (overloads @ rest) (overloads @ pre) dup"
  using assms by (auto simp: first_duplicate_def dict_contains_def image_iff)

lemma tree_map_add_duplicate:
  assumes "tree_map_add po fn registry leaves =
             (Some (RuntimeError_duplicate_registrations dup), registry')"
  shows "\<exists>pre. first_duplicate registry (leaf_overloads po leaves) pre dup
           \<and> registry' = registry @ map (\<lambda>opo. (opo, fn)) pre"
  using assms
proof (induction leaves arbitrary: registry)
  case Nil
  then show ?case by simp
next
  case (Cons leaf leaves)
  show ?case
  proof (cases "overloads_of po leaf")
    case (Inl e)
    then have "e = AssertionError"
      by (auto simp: overloads_of_def split: aten_op.splits)
    with Inl Cons.prems show ?thesis by (simp add: add_op_to_table_def)
  next
    case (Inr overloads)
    have exp: "leaf_overloads po (leaf # leaves) = overloads @ leaf_overloads po leaves"
      using Inr by (simp add: leaf_overloads_def)
    have step: "add_op_to_table po fn registry leaf = add_overloads fn registry overloads"
      using Inr by (simp add: add_op_to_table_def)
    from add_overloads_cases[of overloads registry fn] show ?thesis
    proof (elim disjE conjE exE)
      assume ok: "distinct overloads" "\<forall>opo \<in> set overloads. \<not> dict_contains opo registry"
        and res: "add_overloads fn registry overloads =
                  (None, registry @ map (\<lambda>opo. (opo, fn)) overloads)"
      let ?r = "registry @ map (\<lambda>opo. (opo, fn)) overloads"
      from Cons.prems step res
      have "tree_map_add po fn ?r leaves =
              (Some (RuntimeError_duplicate_registrations dup), registry')"
        by simp
      from Cons.IH[OF this] obtain pre where
        pre: "first_duplicate ?r (leaf_overloads po leaves) pre dup"
          "registry' = ?r @ map (\<lambda>opo. (opo, fn)) pre"
        by blast
      from first_duplicate_append_right[OF ok pre(1)] pre(2) exp
      have "first_duplicate registry (leaf_overloads po (leaf # leaves)) (overloads @ pre) dup
          \<and> registry' = registry @ map (\<lambda>opo. (opo, fn)) (overloads @ pre)"
        by simp
      then show ?thesis by blast
    next
      fix pre dup'
      assume fd: "first_duplicate registry overloads pre dup'"
        and res: "add_overloads fn registry overloads =
             (Some (RuntimeError_duplicate_registrations dup'),
              registry @ map (\<lambda>opo. (opo, fn)) pre)"
      from Cons.prems step res
      have "dup' = dup" "registry' = registry @ map (\<lambda>opo. (opo, fn)) pre"
        by simp_all
      with first_duplicate_append_left[OF fd, of "leaf_overloads po leaves"] exp
      show ?thesis by auto
    qed
  qed
qed



lemma decorator_global:
  "decomposition_decorator po aten_op None ty f st =
     ((case fst (tree_map_add po (wrap_out f) (global_decomposition_table st ty)
                   (tree_flatten aten_op)) of
         Some e \<Rightarrow> Inl e | None \<Rightarrow> Inr (wrap_out f)),
      None,
      st\<lparr>global_decomposition_table :=
           (global_decomposition_table st)
             (ty := snd (tree_map_add po (wrap_out f) (global_decomposition_table st ty)
                           (tree_flatten aten_op)))\<rparr>)"
  by (simp add: decomposition_decorator_def Let_def split: prod.splits)

subsection \<open>Duplicate registrations\<close>



subsection \<open>What a failed registration leaves behind\<close>

text \<open>
  C2, as amended. The claim says that a registration failing with the
  duplicate-registration error leaves the table as it was. The loop of
  \<^verbatim>\<open>add_op_to_table\<close> inserts as it goes and nothing undoes the insertions, so what
  holds is: after such a failure the table of the type is the table from before, followed
  by one new entry for each expanded overload that comes before the first duplicate, and
  nothing else of the module state has changed. When the target is a single overload, no
  overload comes before the duplicate and the state is exactly the one from before.
\<close>

theorem failed_registration_keeps_earlier_insertions:
  assumes "ty \<in> {''post_autograd'', ''pre_autograd'', ''meta''}"
    and "register_decomposition po aten_op None ty disable_meta f st =
           (Inl (RuntimeError_duplicate_registrations dup), registry', st')"
  shows "(\<exists>pre. first_duplicate (global_decomposition_table st ty)
                  (expanded_overloads po aten_op) pre dup
               \<and> st' = st\<lparr>global_decomposition_table :=
                          (global_decomposition_table st)
                            (ty := global_decomposition_table st ty
                                   @ map (\<lambda>opo. (opo, wrap_out f)) pre)\<rparr>)
       \<and> ((\<exists>opo. aten_op = Leaf (Overload opo)) \<longrightarrow> st' = st)"
proof
  let ?reg = "global_decomposition_table st ty"
  let ?run = "tree_map_add po (wrap_out f) ?reg (tree_flatten aten_op)"
  from assms have raised: "fst ?run = Some (RuntimeError_duplicate_registrations dup)"
    and st': "st' = st\<lparr>global_decomposition_table :=
                        (global_decomposition_table st)(ty := snd ?run)\<rparr>"
    by (auto simp: register_decomposition_def decorator_global split: option.splits)
  from raised have "?run = (Some (RuntimeError_duplicate_registrations dup), snd ?run)"
    by (simp add: prod_eq_iff)
  from tree_map_add_duplicate[OF this] obtain pre where
    pre: "first_duplicate ?reg (leaf_overloads po (tree_flatten aten_op)) pre dup"
      "snd ?run = ?reg @ map (\<lambda>opo. (opo, wrap_out f)) pre"
    by blast
  with st' show "\<exists>pre. first_duplicate ?reg (expanded_overloads po aten_op) pre dup
               \<and> st' = st\<lparr>global_decomposition_table :=
                          (global_decomposition_table st)
                            (ty := ?reg @ map (\<lambda>opo. (opo, wrap_out f)) pre)\<rparr>"
    unfolding expanded_overloads_def by auto
  show "(\<exists>opo. aten_op = Leaf (Overload opo)) \<longrightarrow> st' = st"
  proof
    assume "\<exists>opo. aten_op = Leaf (Overload opo)"
    then obtain opo where "aten_op = Leaf (Overload opo)" ..
    with raised st' show "st' = st"
      by (auto simp: add_op_to_table_def overloads_of_def update_fresh split: if_splits)
  qed
qed

theorem failed_registration_keeps_earlier_insertions_witness:
  "''meta'' \<in> {''post_autograd'', ''pre_autograd'', ''meta''}
   \<and> register_decomposition example_overloads (Leaf (Packet add_packet)) None ''meta'' False
       f2 meta_has_Scalar =
       (Inl (RuntimeError_duplicate_registrations add_Scalar), None, meta_has_Tensor_too)
   \<and> (\<exists>pre. first_duplicate (global_decomposition_table meta_has_Scalar ''meta'')
               (expanded_overloads example_overloads (Leaf (Packet add_packet))) pre add_Scalar
            \<and> meta_has_Tensor_too = meta_has_Scalar\<lparr>global_decomposition_table :=
                 (global_decomposition_table meta_has_Scalar)
                   (''meta'' := global_decomposition_table meta_has_Scalar ''meta''
                                @ map (\<lambda>opo. (opo, wrap_out f2)) pre)\<rparr>)
   \<and> register_decomposition example_overloads (Leaf (Overload add_Scalar)) None ''meta'' False
       f2 meta_has_Scalar =
       (Inl (RuntimeError_duplicate_registrations add_Scalar), None, meta_has_Scalar)
   \<and> (\<exists>opo. Leaf (Overload add_Scalar) = Leaf (Overload opo))"
proof -
  have h1: "''meta'' \<in> {''post_autograd'', ''pre_autograd'', ''meta''}" by simp
  have h2: "register_decomposition example_overloads (Leaf (Packet add_packet)) None ''meta''
       False f2 meta_has_Scalar =
       (Inl (RuntimeError_duplicate_registrations add_Scalar), None, meta_has_Tensor_too)"
    by (simp add: register_decomposition_def decorator_global add_op_to_table_def
        overloads_of_def example_overloads_def meta_has_Scalar_def meta_has_Tensor_too_def
        initial_state_def dict_contains_def add_Scalar_def add_Tensor_def wrap_out_def f2_def
        fun_eq_iff)
  have h3: "fst (register_decomposition example_overloads (Leaf (Overload add_Scalar)) None
       ''meta'' False f2 meta_has_Scalar) = Inl (RuntimeError_duplicate_registrations add_Scalar)"
    by (simp add: register_decomposition_def decorator_global add_op_to_table_def
        overloads_of_def meta_has_Scalar_def dict_contains_def)
  obtain r s where h4: "register_decomposition example_overloads (Leaf (Overload add_Scalar))
       None ''meta'' False f2 meta_has_Scalar =
       (Inl (RuntimeError_duplicate_registrations add_Scalar), r, s)"
    using h3 by (cases "register_decomposition example_overloads (Leaf (Overload add_Scalar))
       None ''meta'' False f2 meta_has_Scalar") simp
  have r: "r = None"
    using h4 by (simp add: register_decomposition_def decorator_global)
  from failed_registration_keeps_earlier_insertions[OF h1 h4]
  have "s = meta_has_Scalar" by blast
  with failed_registration_keeps_earlier_insertions[OF h1 h2] h1 h2 h4 r
  show ?thesis by simp
qed

text \<open>
  The claim as stated fails for a packet whose second overload is the duplicate: the first
  overload stays in the table after the exception.
\<close>

theorem failed_registration_not_atomic_counterexample:
  "dict_contains add_Scalar (global_decomposition_table meta_has_Scalar ''meta'')
   \<and> fst (register_decomposition example_overloads (Leaf (Packet add_packet)) None ''meta''
            False f2 meta_has_Scalar) = Inl (RuntimeError_duplicate_registrations add_Scalar)
   \<and> global_decomposition_table meta_has_Scalar ''meta'' = [(add_Scalar, Function f1)]
   \<and> global_decomposition_table
        (snd (snd (register_decomposition example_overloads (Leaf (Packet add_packet)) None
                     ''meta'' False f2 meta_has_Scalar))) ''meta'' =
       [(add_Scalar, Function f1), (add_Tensor, Function f2)]"
  by (simp add: register_decomposition_def decorator_global add_op_to_table_def
      overloads_of_def example_overloads_def meta_has_Scalar_def
      initial_state_def dict_contains_def add_Scalar_def add_Tensor_def wrap_out_def f2_def)

subsection \<open>The tables are independent\<close>

text \<open>
  C9. A registration for one type leaves the table of every other type as it was, whether
  the registration succeeds or raises: the presence of an overload in the other table and
  every entry of it are the same before and after.
\<close>

theorem registration_leaves_other_tables:
  assumes "m1 \<noteq> m2"
  shows "global_decomposition_table
           (snd (snd (register_decomposition po aten_op None m1 disable_meta f st))) m2 =
         global_decomposition_table st m2"
  using assms by (simp add: register_decomposition_def decorator_global)

theorem registration_leaves_other_tables_witness:
  "''meta'' \<noteq> ''post_autograd''
   \<and> global_decomposition_table
        (snd (snd (register_decomposition example_overloads (Leaf (Packet add_packet)) None
                     ''meta'' False f2 meta_has_Scalar))) ''post_autograd'' =
      global_decomposition_table meta_has_Scalar ''post_autograd''
   \<and> global_decomposition_table
        (snd (snd (register_decomposition example_overloads (Leaf (Packet add_packet)) None
                     ''post_autograd'' False f2 meta_has_Scalar))) ''meta'' =
      [(add_Scalar, Function f1)]
   \<and> map fst (global_decomposition_table
        (snd (snd (register_decomposition example_overloads (Leaf (Packet add_packet)) None
                     ''post_autograd'' False f2 meta_has_Scalar))) ''post_autograd'') =
      [add_Tensor, add_Scalar, add_out]"
proof -
  have h: "''meta'' \<noteq> ''post_autograd''" by simp
  have h': "''post_autograd'' \<noteq> ''meta''" by simp
  have ex: "global_decomposition_table meta_has_Scalar ''meta'' = [(add_Scalar, Function f1)]"
    by (simp add: meta_has_Scalar_def)
  have ins: "map fst (global_decomposition_table
        (snd (snd (register_decomposition example_overloads (Leaf (Packet add_packet)) None
                     ''post_autograd'' False f2 meta_has_Scalar))) ''post_autograd'') =
      [add_Tensor, add_Scalar, add_out]"
    by (simp add: register_decomposition_def decorator_global add_op_to_table_def
      overloads_of_def example_overloads_def meta_has_Scalar_def
      initial_state_def dict_contains_def add_Scalar_def add_Tensor_def add_out_def)
  from registration_leaves_other_tables[OF h, of example_overloads "Leaf (Packet add_packet)" False f2 meta_has_Scalar]
    registration_leaves_other_tables[OF h', of example_overloads "Leaf (Packet add_packet)" False f2 meta_has_Scalar]
    h ex ins
  show ?thesis by simp
qed

subsection \<open>The flag \<^verbatim>\<open>disable_meta\<close>\<close>

text \<open>
  C8. The claim says that a successful registration with \<^verbatim>\<open>disable_meta=True\<close> adds the
  expanded overloads to \<^verbatim>\<open>_disabled_meta_decomps\<close>. The statement that did so is
  commented out: registering \<^verbatim>\<open>aten::add.Tensor\<close> with the flag set succeeds, fills the
  table, and leaves the set empty.
\<close>

theorem disable_meta_is_ignored:
  "fst (register_decomposition example_overloads (Leaf (Overload add_Tensor)) None
          ''post_autograd'' True f1 initial_state) = Inr (Function f1)
   \<and> global_decomposition_table
       (snd (snd (register_decomposition example_overloads (Leaf (Overload add_Tensor)) None
          ''post_autograd'' True f1 initial_state))) ''post_autograd'' =
       [(add_Tensor, Function f1)]
   \<and> disabled_meta_decomps
       (snd (snd (register_decomposition example_overloads (Leaf (Overload add_Tensor)) None
          ''post_autograd'' True f1 initial_state))) = {}"
  by (simp add: register_decomposition_def decorator_global add_op_to_table_def
      overloads_of_def initial_state_def dict_contains_def wrap_out_def f1_def)

subsection \<open>Registering a packet\<close>

lemma map_of_fresh_append:
  "\<not> dict_contains k d \<Longrightarrow> map_of (d @ e) k = map_of e k"
  by (simp add: dict_contains_def map_add_def map_of_eq_None_iff[THEN iffD2])

lemma map_of_constant:
  "k \<in> set ks \<Longrightarrow> map_of (map (\<lambda>k. (k, v)) ks) k = Some v"
  by (induction ks) auto

lemma tree_map_add_single:
  "tree_map_add po fn registry [leaf] = add_op_to_table po fn registry leaf"
  by (simp split: prod.splits option.splits)

lemma get_decompositions_single:
  assumes "ty \<in> {''post_autograd'', ''pre_autograd'', ''meta''}"
    and "map_of (global_decomposition_table st ty) opo = Some fn"
  shows "get_decompositions [Overload opo] ty st = Inr [(opo, fn)]"
  using assms
  by (simp add: get_decompositions_def Let_def dict_contains_map_of dict_getitem_def)

text \<open>
  C6. For a packet \<open>F\<close> whose overloads are \<open>o1\<close>, \<open>o2\<close> and \<open>o3\<close>, one registration of
  \<open>F\<close> is the same as the registrations of \<open>o1\<close>, \<open>o2\<close> and \<open>o3\<close> one after the other
  (each on the state the one before has left, and stopping at the first exception): the
  same outcome and the same module state. When the registration of \<open>F\<close> succeeds, the
  table of the type has the three overloads appended, each mapped to the registered
  callable, and \<^verbatim>\<open>get_decompositions\<close> finds each of them.
\<close>

theorem packet_registration_is_registration_of_each_member:
  assumes "ty \<in> {''post_autograd'', ''pre_autograd'', ''meta''}"
    and "po F = [o1, o2, o3]"
  shows "register_decomposition po (Leaf (Packet F)) None ty disable_meta f st =
          (case register_decomposition po (Leaf (Overload o1)) None ty disable_meta f st of
             (Inl e, r, st1) \<Rightarrow> (Inl e, r, st1)
           | (Inr fn1, r, st1) \<Rightarrow>
              (case register_decomposition po (Leaf (Overload o2)) None ty disable_meta f st1 of
                 (Inl e, r, st2) \<Rightarrow> (Inl e, r, st2)
               | (Inr fn2, r, st2) \<Rightarrow>
                   register_decomposition po (Leaf (Overload o3)) None ty disable_meta f st2))
       \<and> (\<forall>fn r st'.
             register_decomposition po (Leaf (Packet F)) None ty disable_meta f st =
               (Inr fn, r, st') \<longrightarrow>
             fn = wrap_out f
             \<and> global_decomposition_table st' ty =
                 global_decomposition_table st ty @ [(o1, fn), (o2, fn), (o3, fn)]
             \<and> (\<forall>opo \<in> {o1, o2, o3}.
                   map_of (global_decomposition_table st' ty) opo = Some fn
                   \<and> get_decompositions [Overload opo] ty st' = Inr [(opo, fn)]))"
proof (intro conjI allI impI)
  show "register_decomposition po (Leaf (Packet F)) None ty disable_meta f st =
          (case register_decomposition po (Leaf (Overload o1)) None ty disable_meta f st of
             (Inl e, r, st1) \<Rightarrow> (Inl e, r, st1)
           | (Inr fn1, r, st1) \<Rightarrow>
              (case register_decomposition po (Leaf (Overload o2)) None ty disable_meta f st1 of
                 (Inl e, r, st2) \<Rightarrow> (Inl e, r, st2)
               | (Inr fn2, r, st2) \<Rightarrow>
                   register_decomposition po (Leaf (Overload o3)) None ty disable_meta f st2))"
    using assms
    by (simp add: register_decomposition_def decorator_global add_op_to_table_def
        overloads_of_def)
next
  fix fn r st'
  assume ok: "register_decomposition po (Leaf (Packet F)) None ty disable_meta f st =
               (Inr fn, r, st')"
  let ?reg = "global_decomposition_table st ty"
  let ?run = "add_overloads (wrap_out f) ?reg [o1, o2, o3]"
  from ok assms have run: "fst ?run = None" and fn: "fn = wrap_out f"
    and st': "global_decomposition_table st' ty = snd ?run"
    by (auto simp: register_decomposition_def decorator_global add_op_to_table_def
        overloads_of_def tree_map_add_single split: option.splits
        simp del: add_overloads.simps tree_map_add.simps)
  from add_overloads_cases[of "[o1, o2, o3]" ?reg "wrap_out f"] run
  have fresh: "\<forall>opo \<in> set [o1, o2, o3]. \<not> dict_contains opo ?reg"
    and res: "?run = (None, ?reg @ map (\<lambda>opo. (opo, wrap_out f)) [o1, o2, o3])"
    by (auto simp del: add_overloads.simps)
  show "fn = wrap_out f" by (rule fn)
  show tab: "global_decomposition_table st' ty = ?reg @ [(o1, fn), (o2, fn), (o3, fn)]"
    using st' res fn by simp
  show "\<forall>opo \<in> {o1, o2, o3}.
          map_of (global_decomposition_table st' ty) opo = Some fn
          \<and> get_decompositions [Overload opo] ty st' = Inr [(opo, fn)]"
  proof
    fix opo assume mem: "opo \<in> {o1, o2, o3}"
    with fresh have "\<not> dict_contains opo ?reg" by auto
    then have "map_of (global_decomposition_table st' ty) opo =
                 map_of (map (\<lambda>k. (k, fn)) [o1, o2, o3]) opo"
      unfolding tab using map_of_fresh_append[of opo ?reg "map (\<lambda>k. (k, fn)) [o1, o2, o3]"]
      by simp
    also have "\<dots> = Some fn"
      using mem by (intro map_of_constant) simp
    finally have look: "map_of (global_decomposition_table st' ty) opo = Some fn" .
    with get_decompositions_single[OF assms(1) look]
    show "map_of (global_decomposition_table st' ty) opo = Some fn
          \<and> get_decompositions [Overload opo] ty st' = Inr [(opo, fn)]"
      by simp
  qed
qed

theorem packet_registration_is_registration_of_each_member_witness:
  "''post_autograd'' \<in> {''post_autograd'', ''pre_autograd'', ''meta''}
   \<and> example_overloads add_packet = [add_Tensor, add_Scalar, add_out]
   \<and> register_decomposition example_overloads (Leaf (Packet add_packet)) None
        ''post_autograd'' False f1 initial_state = (Inr (Function f1), None, post_has_add)
   \<and> register_decomposition example_overloads (Leaf (Overload add_out)) None
        ''post_autograd'' False f1
        (snd (snd (register_decomposition example_overloads (Leaf (Overload add_Scalar)) None
           ''post_autograd'' False f1
           (snd (snd (register_decomposition example_overloads (Leaf (Overload add_Tensor))
              None ''post_autograd'' False f1 initial_state)))))) =
       (Inr (Function f1), None, post_has_add)
   \<and> get_decompositions [Overload add_Tensor] ''post_autograd'' post_has_add =
       Inr [(add_Tensor, Function f1)]
   \<and> get_decompositions [Overload add_Scalar] ''post_autograd'' post_has_add =
       Inr [(add_Scalar, Function f1)]
   \<and> get_decompositions [Overload add_out] ''post_autograd'' post_has_add =
       Inr [(add_out, Function f1)]"
proof -
  have h1: "''post_autograd'' \<in> {''post_autograd'', ''pre_autograd'', ''meta''}" by simp
  have h2: "example_overloads add_packet = [add_Tensor, add_Scalar, add_out]"
    by (simp add: example_overloads_def)
  have d: "add_Tensor \<noteq> add_Scalar" "add_Tensor \<noteq> add_out" "add_Scalar \<noteq> add_out"
    by (simp_all add: add_Tensor_def add_Scalar_def add_out_def)
  have one: "register_decomposition example_overloads (Leaf (Overload add_Tensor))
              None ''post_autograd'' False f1 initial_state =
             (Inr (Function f1), None, initial_state\<lparr>global_decomposition_table :=
                (\<lambda>ty. if ty = ''post_autograd'' then [(add_Tensor, Function f1)] else [])\<rparr>)"
    by (simp add: register_decomposition_def decorator_global add_op_to_table_def
        overloads_of_def initial_state_def dict_contains_def wrap_out_def f1_def fun_eq_iff)
  have two: "register_decomposition example_overloads (Leaf (Overload add_Scalar))
              None ''post_autograd'' False f1 (initial_state\<lparr>global_decomposition_table :=
                (\<lambda>ty. if ty = ''post_autograd'' then [(add_Tensor, Function f1)] else [])\<rparr>) =
             (Inr (Function f1), None, initial_state\<lparr>global_decomposition_table :=
                (\<lambda>ty. if ty = ''post_autograd''
                      then [(add_Tensor, Function f1), (add_Scalar, Function f1)] else [])\<rparr>)"
    using d
    by (simp add: register_decomposition_def decorator_global add_op_to_table_def
        overloads_of_def initial_state_def dict_contains_def wrap_out_def f1_def fun_eq_iff)
  have three: "register_decomposition example_overloads (Leaf (Overload add_out))
              None ''post_autograd'' False f1 (initial_state\<lparr>global_decomposition_table :=
                (\<lambda>ty. if ty = ''post_autograd''
                      then [(add_Tensor, Function f1), (add_Scalar, Function f1)] else [])\<rparr>) =
             (Inr (Function f1), None, post_has_add)"
    using d
    by (simp add: register_decomposition_def decorator_global add_op_to_table_def
        overloads_of_def initial_state_def dict_contains_def wrap_out_def f1_def fun_eq_iff
        post_has_add_def)
  from packet_registration_is_registration_of_each_member[where po = example_overloads
      and F = add_packet and disable_meta = False and f = f1 and st = initial_state, OF h1 h2]
  have all: "register_decomposition example_overloads (Leaf (Packet add_packet)) None
        ''post_autograd'' False f1 initial_state = (Inr (Function f1), None, post_has_add)"
    and q: "\<forall>fn r st'.
             register_decomposition example_overloads (Leaf (Packet add_packet)) None
               ''post_autograd'' False f1 initial_state = (Inr fn, r, st') \<longrightarrow>
             (\<forall>opo \<in> {add_Tensor, add_Scalar, add_out}.
                   get_decompositions [Overload opo] ''post_autograd'' st' = Inr [(opo, fn)])"
    by (simp_all add: one two three)
  from q all have "\<forall>opo \<in> {add_Tensor, add_Scalar, add_out}.
     get_decompositions [Overload opo] ''post_autograd'' post_has_add =
       Inr [(opo, Function f1)]"
    by blast
  with h1 h2 all one two three show ?thesis by simp
qed

section \<open>Queries\<close>

lemma index_packets_map_of:
  "map_of (index_packets acc keys) p =
     (case map_of acc p of
        None \<Rightarrow> (if filter (\<lambda>opo. overloadpacket opo = p) keys = [] then None
                 else Some (filter (\<lambda>opo. overloadpacket opo = p) keys))
      | Some opos \<Rightarrow> Some (opos @ filter (\<lambda>opo. overloadpacket opo = p) keys))"
  by (induction keys arbitrary: acc) (auto simp: update_conv' split: option.splits)

lemma copy_overloads_result:
  assumes "\<forall>opo \<in> set opos. dict_contains opo registry"
  shows "\<exists>d'. copy_overloads registry d opos = Inr d'
           \<and> (distinct (map fst d) \<longrightarrow> distinct (map fst d'))
           \<and> (\<forall>opo. map_of d' opo =
                  (if opo \<in> set opos then map_of registry opo else map_of d opo))"
  using assms
proof (induction opos arbitrary: d)
  case Nil
  show ?case by simp
next
  case (Cons opo opos)
  then obtain fn where fn: "map_of registry opo = Some fn"
    by (auto simp: dict_contains_map_of)
  from Cons.prems have "\<forall>x \<in> set opos. dict_contains x registry" by simp
  from Cons.IH[OF this, of "AList.update opo fn d"] obtain d' where
    d': "copy_overloads registry (AList.update opo fn d) opos = Inr d'"
      "distinct (map fst (AList.update opo fn d)) \<longrightarrow> distinct (map fst d')"
      "\<forall>x. map_of d' x =
          (if x \<in> set opos then map_of registry x else map_of (AList.update opo fn d) x)"
    by blast
  have "copy_overloads registry d (opo # opos) = Inr d'"
    using fn d'(1) by (simp add: dict_getitem_def)
  moreover have "distinct (map fst d) \<longrightarrow> distinct (map fst d')"
    using d'(2) by (simp add: distinct_update)
  moreover have "\<forall>x. map_of d' x =
          (if x \<in> set (opo # opos) then map_of registry x else map_of d x)"
    using d'(3) fn by (simp add: update_conv')
  ultimately show ?case by blast
qed

lemma collect_decompositions_result:
  assumes "\<And>p. map_of packets_to_overloads p =
             (if filter (\<lambda>opo. overloadpacket opo = p) (map fst registry) = [] then None
              else Some (filter (\<lambda>opo. overloadpacket opo = p) (map fst registry)))"
  shows "\<exists>d'. collect_decompositions registry packets_to_overloads d aten_ops = Inr d'
           \<and> (distinct (map fst d) \<longrightarrow> distinct (map fst d'))
           \<and> (\<forall>opo. map_of d' opo =
                  (if found registry aten_ops opo then map_of registry opo else map_of d opo))"
proof (induction aten_ops arbitrary: d)
  case Nil
  show ?case by (simp add: found_def)
next
  case (Cons op aten_ops)
  show ?case
  proof (cases op)
    case NotAnOperator
    with Cons.IH[of d] show ?thesis by (simp add: found_def)
  next
    case (Overload op_overload)
    show ?thesis
    proof (cases "dict_contains op_overload registry")
      case False
      with Overload Cons.IH[of d] show ?thesis by (auto simp: found_def)
    next
      case True
      then obtain fn where fn: "map_of registry op_overload = Some fn"
        by (auto simp: dict_contains_map_of)
      from Cons.IH[of "AList.update op_overload fn d"] obtain d' where
        d': "collect_decompositions registry packets_to_overloads
               (AList.update op_overload fn d) aten_ops = Inr d'"
          "distinct (map fst (AList.update op_overload fn d)) \<longrightarrow> distinct (map fst d')"
          "\<forall>x. map_of d' x =
              (if found registry aten_ops x then map_of registry x
               else map_of (AList.update op_overload fn d) x)"
        by blast
      have "collect_decompositions registry packets_to_overloads d (op # aten_ops) = Inr d'"
        using Overload True fn d'(1) by (simp add: dict_getitem_def)
      moreover have "distinct (map fst d) \<longrightarrow> distinct (map fst d')"
        using d'(2) by (simp add: distinct_update)
      moreover have "\<forall>x. map_of d' x =
              (if found registry (op # aten_ops) x then map_of registry x else map_of d x)"
        using d'(3) fn True Overload by (auto simp: update_conv' found_def)
      ultimately show ?thesis by blast
    qed
  next
    case (Packet p)
    let ?opos = "filter (\<lambda>opo. overloadpacket opo = p) (map fst registry)"
    show ?thesis
    proof (cases "?opos = []")
      case True
      then have none: "\<not> dict_contains p packets_to_overloads"
        by (simp add: dict_contains_map_of assms)
      from True have "\<forall>x. dict_contains x registry \<longrightarrow> overloadpacket x \<noteq> p"
        by (auto simp: dict_contains_def filter_empty_conv)
      with Packet have same: "found registry (op # aten_ops) = found registry aten_ops"
        by (auto simp: found_def fun_eq_iff)
      have "collect_decompositions registry packets_to_overloads d (op # aten_ops) =
              collect_decompositions registry packets_to_overloads d aten_ops"
        using Packet none by simp
      with Cons.IH[of d] show ?thesis unfolding same by simp
    next
      case False
      then have look: "map_of packets_to_overloads p = Some ?opos"
        by (simp add: assms)
      have "\<forall>opo \<in> set ?opos. dict_contains opo registry"
        by (auto simp: dict_contains_def)
      from copy_overloads_result[OF this, of d] obtain d1 where
        d1: "copy_overloads registry d ?opos = Inr d1"
          "distinct (map fst d) \<longrightarrow> distinct (map fst d1)"
          "\<forall>x. map_of d1 x = (if x \<in> set ?opos then map_of registry x else map_of d x)"
        by blast
      from Cons.IH[of d1] obtain d' where
        d': "collect_decompositions registry packets_to_overloads d1 aten_ops = Inr d'"
          "distinct (map fst d1) \<longrightarrow> distinct (map fst d')"
          "\<forall>x. map_of d' x =
              (if found registry aten_ops x then map_of registry x else map_of d1 x)"
        by blast
      have "collect_decompositions registry packets_to_overloads d (op # aten_ops) = Inr d'"
        using Packet look d1(1) d'(1) by (simp add: dict_contains_map_of dict_getitem_def)
      moreover have "distinct (map fst d) \<longrightarrow> distinct (map fst d')"
        using d1(2) d'(2) by simp
      moreover have "\<forall>x. map_of d' x =
              (if found registry (op # aten_ops) x then map_of registry x else map_of d x)"
        using d'(3) d1(3) Packet by (auto simp: found_def dict_contains_def)
      ultimately show ?thesis by blast
    qed
  qed
qed

text \<open>
  C7. For every sequence of requested overloads, packets and other items and every one of
  the three types, \<^verbatim>\<open>get_decompositions\<close> returns a dictionary and raises nothing. The
  dictionary holds exactly the entries of the table that were asked for: an overload has
  an entry if and only if it is a key of the table and either it was requested itself or
  its packet was requested, and the entry is the callable the table has for it. A
  requested packet so contributes those of its overloads that are registered, and a
  requested item that the table does not have contributes nothing.
\<close>

theorem get_decompositions_exact:
  assumes "ty \<in> {''post_autograd'', ''pre_autograd'', ''meta''}"
  shows "\<exists>decompositions.
           get_decompositions aten_ops ty st = Inr decompositions
           \<and> distinct (map fst decompositions)
           \<and> (\<forall>opo. map_of decompositions opo =
                  (if Overload opo \<in> set aten_ops
                      \<or> Packet (overloadpacket opo) \<in> set aten_ops
                   then map_of (global_decomposition_table st ty) opo
                   else None))"
proof -
  let ?reg = "global_decomposition_table st ty"
  have idx: "\<And>p. map_of (index_packets [] (map fst ?reg)) p =
             (if filter (\<lambda>opo. overloadpacket opo = p) (map fst ?reg) = [] then None
              else Some (filter (\<lambda>opo. overloadpacket opo = p) (map fst ?reg)))"
    by (simp add: index_packets_map_of)
  from collect_decompositions_result[of "index_packets [] (map fst ?reg)" ?reg "[]" aten_ops,
      OF idx]
  obtain d' where
    d': "collect_decompositions ?reg (index_packets [] (map fst ?reg)) [] aten_ops = Inr d'"
      "distinct (map fst d')"
      "\<forall>opo. map_of d' opo = (if found ?reg aten_ops opo then map_of ?reg opo else None)"
    by auto
  have "get_decompositions aten_ops ty st = Inr d'"
    using assms d'(1) by (simp add: get_decompositions_def Let_def)
  moreover have "\<forall>opo. map_of d' opo =
                  (if Overload opo \<in> set aten_ops
                      \<or> Packet (overloadpacket opo) \<in> set aten_ops
                   then map_of ?reg opo else None)"
    using d'(3) by (auto simp: found_def dict_contains_map_of)
  ultimately show ?thesis using d'(2) by blast
qed

theorem get_decompositions_exact_witness:
  "''post_autograd'' \<in> {''post_autograd'', ''pre_autograd'', ''meta''}
   \<and> get_decompositions [Packet add_packet, Overload view_default, NotAnOperator]
        ''post_autograd'' post_has_Tensor_Scalar =
       Inr [(add_Tensor, Function f1), (add_Scalar, Function f1)]
   \<and> (\<exists>decompositions.
         get_decompositions [Packet add_packet, Overload view_default, NotAnOperator]
           ''post_autograd'' post_has_Tensor_Scalar = Inr decompositions
         \<and> distinct (map fst decompositions)
         \<and> map_of decompositions add_Tensor = Some (Function f1)
         \<and> map_of decompositions add_Scalar = Some (Function f1)
         \<and> map_of decompositions add_out = None
         \<and> map_of decompositions view_default = None)"
proof -
  have h: "''post_autograd'' \<in> {''post_autograd'', ''pre_autograd'', ''meta''}" by simp
  have d: "add_Tensor \<noteq> add_Scalar" "add_out \<noteq> add_Tensor" "add_out \<noteq> add_Scalar"
    "view_default \<noteq> add_Tensor" "view_default \<noteq> add_Scalar"
    by (simp_all add: add_Tensor_def add_Scalar_def add_out_def view_default_def)
  have p: "overloadpacket add_Tensor = add_packet" "overloadpacket add_Scalar = add_packet"
    "overloadpacket add_out = add_packet"
    by (simp_all add: add_Tensor_def add_Scalar_def add_out_def)
  have tab: "global_decomposition_table post_has_Tensor_Scalar ''post_autograd'' =
      [(add_Tensor, Function f1), (add_Scalar, Function f1)]"
    by (simp add: post_has_Tensor_Scalar_def)
  have run: "get_decompositions [Packet add_packet, Overload view_default, NotAnOperator]
        ''post_autograd'' post_has_Tensor_Scalar =
       Inr [(add_Tensor, Function f1), (add_Scalar, Function f1)]"
    using d p by (simp add: get_decompositions_def Let_def tab dict_contains_def
        dict_getitem_def)
  from get_decompositions_exact[OF h,
      of "[Packet add_packet, Overload view_default, NotAnOperator]" post_has_Tensor_Scalar]
  obtain decompositions where
    "get_decompositions [Packet add_packet, Overload view_default, NotAnOperator]
           ''post_autograd'' post_has_Tensor_Scalar = Inr decompositions"
    "distinct (map fst decompositions)"
    "\<forall>opo. map_of decompositions opo =
        (if Overload opo \<in> set [Packet add_packet, Overload view_default, NotAnOperator]
            \<or> Packet (overloadpacket opo)
                \<in> set [Packet add_packet, Overload view_default, NotAnOperator]
         then map_of (global_decomposition_table post_has_Tensor_Scalar ''post_autograd'') opo
         else None)"
    by blast
  then have "get_decompositions [Packet add_packet, Overload view_default, NotAnOperator]
           ''post_autograd'' post_has_Tensor_Scalar = Inr decompositions
         \<and> distinct (map fst decompositions)
         \<and> map_of decompositions add_Tensor = Some (Function f1)
         \<and> map_of decompositions add_Scalar = Some (Function f1)
         \<and> map_of decompositions add_out = None
         \<and> map_of decompositions view_default = None"
    using d p by (simp add: tab)
  with h run show ?thesis by blast
qed

section \<open>Activation\<close>

subsection \<open>The merged table and the calls of a run\<close>

lemma merge_registry_map_of:
  "map_of (merge_registry activate_meta_table registry) opo =
     (case map_of activate_meta_table opo of
        Some fn \<Rightarrow> Some fn
      | None \<Rightarrow> map_of registry opo)"
proof (induction registry arbitrary: activate_meta_table)
  case Nil
  show ?case by (simp split: option.splits)
next
  case (Cons item registry)
  obtain k fn where item: "item = (k, fn)" by (cases item)
  show ?case
    unfolding item
    by (auto simp: Cons.IH update_conv' dict_contains_map_of split: option.splits)
qed

lemma merge_registry_distinct:
  "distinct (map fst activate_meta_table) \<Longrightarrow>
   distinct (map fst (merge_registry activate_meta_table registry))"
proof (induction registry arbitrary: activate_meta_table)
  case Nil
  then show ?case by simp
next
  case (Cons item registry)
  obtain k fn where item: "item = (k, fn)" by (cases item)
  show ?case
    unfolding item using Cons.prems
    by (auto intro!: Cons.IH simp: distinct_update)
qed

lemma build_activate_meta_table_map_of:
  "map_of (build_activate_meta_table st) opo =
     (case map_of (global_decomposition_table st ''meta'') opo of
        Some fn \<Rightarrow> Some fn
      | None \<Rightarrow>
          (case map_of (global_decomposition_table st ''post_autograd'') opo of
             Some fn \<Rightarrow> Some fn
           | None \<Rightarrow> map_of (global_decomposition_table st ''pre_autograd'') opo))"
  by (simp add: build_activate_meta_table_def merge_registry_map_of split: option.splits)

lemma build_activate_meta_table_distinct:
  "distinct (map fst (build_activate_meta_table st))"
  by (simp add: build_activate_meta_table_def merge_registry_distinct)

lemma build_activate_meta_table_items:
  "(opo, fn) \<in> set (build_activate_meta_table st) \<longleftrightarrow>
   map_of (build_activate_meta_table st) opo = Some fn"
  using build_activate_meta_table_distinct[of st] by (auto dest: map_of_SomeD)

lemma meta_lib_impl_in_activate_items:
  "Call_meta_lib_impl opo fn \<in> set (activate_items dump items) \<longleftrightarrow>
     (opo, fn) \<in> set items
     \<and> \<not> sublist ''CompositeImplicitAutograd'' (dump (dispatch_name opo))
     \<and> \<not> is_view_op opo"
  by (induction items) (auto simp: Let_def split: if_splits)

lemma py_impl_in_activate_items:
  "Call_py_impl_Meta opo fn \<in> set (activate_items dump items) \<longleftrightarrow> (opo, fn) \<in> set items"
  by (induction items) (auto simp: Let_def split: if_splits)

lemma activate_items_append:
  "activate_items dump (xs @ ys) = activate_items dump xs @ activate_items dump ys"
  by (induction xs) (auto simp: Let_def)

lemma is_view_op_iff:
  "is_view_op opo \<longleftrightarrow>
     (\<exists>a \<in> set (arguments (schema opo)).
        \<exists>info. alias_info a = Some info \<and> \<not> is_write info)"
  by (auto simp: is_view_op_def list_ex_iff split: option.splits)

subsection \<open>A run on three small tables\<close>

text \<open>
  \<^verbatim>\<open>aten::add.Tensor\<close> is in the tables of \<^verbatim>\<open>meta\<close> and \<^verbatim>\<open>post_autograd\<close> with different
  functions, \<^verbatim>\<open>aten::add.Scalar\<close> has a \<^verbatim>\<open>CompositeImplicitAutograd\<close> kernel in the dump,
  and \<^verbatim>\<open>aten::view\<close> takes an argument that aliases without writing.
\<close>

lemma example_merge:
  "build_activate_meta_table activation_example =
     [(add_Tensor, Function f2), (add_Scalar, Function f2), (view_default, Function f1),
      (add_out, Function f1)]"
  by (simp add: build_activate_meta_table_def activation_example_def initial_state_def
      dict_contains_def add_Tensor_def add_Scalar_def add_out_def view_default_def add_packet_def)

lemma example_names:
  "dispatch_name add_Tensor = ''aten::add.Tensor''"
  "dispatch_name add_Scalar = ''aten::add.Scalar''"
  "dispatch_name add_out = ''aten::add.out''"
  "dispatch_name view_default = ''aten::view''"
  by (simp_all add: dispatch_name_def add_Tensor_def add_Scalar_def add_out_def
      view_default_def)

lemma example_dumps:
  "\<not> sublist ''CompositeImplicitAutograd'' (example_dump ''aten::add.Tensor'')"
  "sublist ''CompositeImplicitAutograd'' (example_dump ''aten::add.Scalar'')"
  "\<not> sublist ''CompositeImplicitAutograd'' (example_dump ''aten::add.out'')"
  "\<not> sublist ''CompositeImplicitAutograd'' (example_dump ''aten::view'')"
  by code_simp+

lemma example_views:
  "\<not> is_view_op add_Tensor" "\<not> is_view_op add_Scalar" "\<not> is_view_op add_out"
  "is_view_op view_default"
  by (simp_all add: is_view_op_def add_Tensor_def add_Scalar_def add_out_def view_default_def)

lemma example_run:
  "activate_meta example_dump activation_example =
     [Call_py_impl_Meta add_Tensor (Function f2), Call_dispatch_dump ''aten::add.Tensor'',
      Call_meta_lib_impl add_Tensor (Function f2),
      Call_py_impl_Meta add_Scalar (Function f2), Call_dispatch_dump ''aten::add.Scalar'',
      Call_py_impl_Meta view_default (Function f1), Call_dispatch_dump ''aten::view'',
      Call_py_impl_Meta add_out (Function f1), Call_dispatch_dump ''aten::add.out'',
      Call_meta_lib_impl add_out (Function f1)]"
  by (simp add: activate_meta_def example_merge example_names example_dumps example_views
      Let_def)

lemma example_tables:
  "global_decomposition_table activation_example ''meta'' =
     [(add_Tensor, Function f2), (add_Scalar, Function f2)]"
  "global_decomposition_table activation_example ''post_autograd'' =
     [(add_Tensor, Function f1), (view_default, Function f1)]"
  "global_decomposition_table activation_example ''pre_autograd'' =
     [(add_out, Function f1), (add_Scalar, Function f1)]"
  by (simp_all add: activation_example_def)

lemma example_distinct:
  "add_Tensor \<noteq> add_Scalar" "add_Tensor \<noteq> add_out" "add_Tensor \<noteq> view_default"
  "add_Scalar \<noteq> add_out" "add_Scalar \<noteq> view_default" "add_out \<noteq> view_default"
  "f1 \<noteq> f2"
  by (simp_all add: add_Tensor_def add_Scalar_def add_out_def view_default_def f1_def f2_def)

subsection \<open>Precedence\<close>

text \<open>
  C3. The merged table of \<^verbatim>\<open>activate_meta\<close> gives an overload the callable of the first
  of the tables \<^verbatim>\<open>meta\<close>, \<^verbatim>\<open>post_autograd\<close>, \<^verbatim>\<open>pre_autograd\<close> that has the overload as a
  key. So for an overload that the \<^verbatim>\<open>meta\<close> table and the \<^verbatim>\<open>post_autograd\<close> table both
  have, \<^verbatim>\<open>meta_lib.impl\<close> is called for it with the callable of the \<^verbatim>\<open>meta\<close> table and
  with no other (and it is called exactly when neither exclusion applies).
\<close>

theorem activation_prefers_meta_table:
  "map_of (build_activate_meta_table st) opo =
     (case map_of (global_decomposition_table st ''meta'') opo of
        Some fn \<Rightarrow> Some fn
      | None \<Rightarrow>
          (case map_of (global_decomposition_table st ''post_autograd'') opo of
             Some fn \<Rightarrow> Some fn
           | None \<Rightarrow> map_of (global_decomposition_table st ''pre_autograd'') opo))
   \<and> (\<forall>f_meta f_post.
         map_of (global_decomposition_table st ''meta'') opo = Some f_meta \<longrightarrow>
         map_of (global_decomposition_table st ''post_autograd'') opo = Some f_post \<longrightarrow>
         (\<forall>fn. Call_meta_lib_impl opo fn \<in> set (activate_meta dump st) \<longleftrightarrow>
                 fn = f_meta
                 \<and> \<not> sublist ''CompositeImplicitAutograd'' (dump (dispatch_name opo))
                 \<and> \<not> is_view_op opo))"
  by (auto simp: build_activate_meta_table_map_of activate_meta_def
      meta_lib_impl_in_activate_items build_activate_meta_table_items)

theorem activation_prefers_meta_table_witness:
  "map_of (global_decomposition_table activation_example ''meta'') add_Tensor =
     Some (Function f2)
   \<and> map_of (global_decomposition_table activation_example ''post_autograd'') add_Tensor =
     Some (Function f1)
   \<and> Function f2 \<noteq> Function f1
   \<and> map_of (build_activate_meta_table activation_example) add_Tensor = Some (Function f2)
   \<and> Call_meta_lib_impl add_Tensor (Function f2)
       \<in> set (activate_meta example_dump activation_example)
   \<and> Call_meta_lib_impl add_Tensor (Function f1)
       \<notin> set (activate_meta example_dump activation_example)"
proof -
  have m: "map_of (global_decomposition_table activation_example ''meta'') add_Tensor =
     Some (Function f2)"
    and p: "map_of (global_decomposition_table activation_example ''post_autograd'')
     add_Tensor = Some (Function f1)"
    by (simp_all add: example_tables)
  have ne: "Function f2 \<noteq> Function f1"
    using example_distinct by simp
  have el: "\<not> sublist ''CompositeImplicitAutograd'' (example_dump (dispatch_name add_Tensor))"
    "\<not> is_view_op add_Tensor"
    by (simp_all add: example_names example_dumps example_views)
  from activation_prefers_meta_table[of activation_example add_Tensor example_dump] m p
  have "map_of (build_activate_meta_table activation_example) add_Tensor = Some (Function f2)"
    and "\<forall>fn. Call_meta_lib_impl add_Tensor fn
               \<in> set (activate_meta example_dump activation_example) \<longleftrightarrow>
             fn = Function f2
             \<and> \<not> sublist ''CompositeImplicitAutograd'' (example_dump (dispatch_name add_Tensor))
             \<and> \<not> is_view_op add_Tensor"
    by simp_all
  with m p ne el show ?thesis by simp
qed

subsection \<open>The exclusions\<close>

text \<open>
  C4. For every item of the merged table, \<^verbatim>\<open>meta_lib.impl\<close> is called with the overload
  and its callable if and only if the dump of the overload's dispatch name does not
  contain \<^verbatim>\<open>CompositeImplicitAutograd\<close> and no argument of the overload's schema has an
  alias annotation that is not a write. \<^verbatim>\<open>activate_meta\<close> has no exception of its own:
  an excluded overload is passed over and the run goes on.
\<close>

theorem meta_kernel_installed_iff:
  assumes "(opo, fn) \<in> set (build_activate_meta_table st)"
  shows "Call_meta_lib_impl opo fn \<in> set (activate_meta dump st) \<longleftrightarrow>
           \<not> sublist ''CompositeImplicitAutograd'' (dump (dispatch_name opo))
           \<and> \<not> (\<exists>a \<in> set (arguments (schema opo)).
                  \<exists>info. alias_info a = Some info \<and> \<not> is_write info)"
  using assms
  by (simp add: activate_meta_def meta_lib_impl_in_activate_items is_view_op_iff)

theorem meta_kernel_installed_iff_witness:
  "(add_Tensor, Function f2) \<in> set (build_activate_meta_table activation_example)
   \<and> Call_meta_lib_impl add_Tensor (Function f2)
       \<in> set (activate_meta example_dump activation_example)
   \<and> (add_Scalar, Function f2) \<in> set (build_activate_meta_table activation_example)
   \<and> sublist ''CompositeImplicitAutograd'' (example_dump (dispatch_name add_Scalar))
   \<and> Call_meta_lib_impl add_Scalar (Function f2)
       \<notin> set (activate_meta example_dump activation_example)
   \<and> (view_default, Function f1) \<in> set (build_activate_meta_table activation_example)
   \<and> alias_info (hd (arguments (schema view_default))) = Some (AliasInfo False)
   \<and> Call_meta_lib_impl view_default (Function f1)
       \<notin> set (activate_meta example_dump activation_example)"
proof -
  have t: "(add_Tensor, Function f2) \<in> set (build_activate_meta_table activation_example)"
    and s: "(add_Scalar, Function f2) \<in> set (build_activate_meta_table activation_example)"
    and v: "(view_default, Function f1) \<in> set (build_activate_meta_table activation_example)"
    by (simp_all add: example_merge)
  have a: "alias_info (hd (arguments (schema view_default))) = Some (AliasInfo False)"
    by (simp add: view_default_def)
  have args: "arguments (schema add_Tensor) = [Argument None, Argument None]"
    "arguments (schema view_default) = [Argument (Some (AliasInfo False)), Argument None]"
    by (simp_all add: add_Tensor_def view_default_def)
  from meta_kernel_installed_iff[OF t, of example_dump]
  have 1: "Call_meta_lib_impl add_Tensor (Function f2)
       \<in> set (activate_meta example_dump activation_example)"
    by (simp add: example_names example_dumps args)
  from meta_kernel_installed_iff[OF s, of example_dump]
  have 2: "Call_meta_lib_impl add_Scalar (Function f2)
       \<notin> set (activate_meta example_dump activation_example)"
    by (simp add: example_names example_dumps)
  from meta_kernel_installed_iff[OF v, of example_dump]
  have 3: "Call_meta_lib_impl view_default (Function f1)
       \<notin> set (activate_meta example_dump activation_example)"
    by (simp add: example_names example_dumps args)
  from t s v a 1 2 3 show ?thesis
    by (simp add: example_names example_dumps)
qed

subsection \<open>The Python kernel for the Meta key\<close>

text \<open>
  C10. For every item of the merged table, the run calls \<^verbatim>\<open>py_impl\<close> for the Meta key
  with the overload and its callable, then asks for the dump, and only then, when no
  exclusion applies, calls \<^verbatim>\<open>meta_lib.impl\<close>. The call of \<^verbatim>\<open>py_impl\<close> is there for every
  item; for an excluded overload it is the only registration made.
\<close>

theorem py_impl_registered_unconditionally:
  assumes "(opo, fn) \<in> set (build_activate_meta_table st)"
  shows "(\<exists>before after.
            activate_meta dump st =
              before
              @ [Call_py_impl_Meta opo fn, Call_dispatch_dump (dispatch_name opo)]
              @ (if sublist ''CompositeImplicitAutograd'' (dump (dispatch_name opo))
                    \<or> is_view_op opo
                 then [] else [Call_meta_lib_impl opo fn])
              @ after)
       \<and> Call_py_impl_Meta opo fn \<in> set (activate_meta dump st)
       \<and> (sublist ''CompositeImplicitAutograd'' (dump (dispatch_name opo)) \<or> is_view_op opo
            \<longrightarrow> Call_meta_lib_impl opo fn \<notin> set (activate_meta dump st))"
proof (intro conjI)
  from assms obtain xs ys where
    split: "build_activate_meta_table st = xs @ (opo, fn) # ys"
    by (auto simp: in_set_conv_decomp)
  have "activate_meta dump st =
          activate_items dump xs
          @ [Call_py_impl_Meta opo fn, Call_dispatch_dump (dispatch_name opo)]
          @ (if sublist ''CompositeImplicitAutograd'' (dump (dispatch_name opo))
                \<or> is_view_op opo
             then [] else [Call_meta_lib_impl opo fn])
          @ activate_items dump ys"
    by (simp add: activate_meta_def split activate_items_append Let_def)
  then show "\<exists>before after.
            activate_meta dump st =
              before
              @ [Call_py_impl_Meta opo fn, Call_dispatch_dump (dispatch_name opo)]
              @ (if sublist ''CompositeImplicitAutograd'' (dump (dispatch_name opo))
                    \<or> is_view_op opo
                 then [] else [Call_meta_lib_impl opo fn])
              @ after"
    by blast
  show "Call_py_impl_Meta opo fn \<in> set (activate_meta dump st)"
    using assms by (simp add: activate_meta_def py_impl_in_activate_items)
  show "sublist ''CompositeImplicitAutograd'' (dump (dispatch_name opo)) \<or> is_view_op opo
            \<longrightarrow> Call_meta_lib_impl opo fn \<notin> set (activate_meta dump st)"
    by (auto simp: activate_meta_def meta_lib_impl_in_activate_items)
qed

theorem py_impl_registered_unconditionally_witness:
  "(add_Scalar, Function f2) \<in> set (build_activate_meta_table activation_example)
   \<and> sublist ''CompositeImplicitAutograd'' (example_dump (dispatch_name add_Scalar))
   \<and> Call_py_impl_Meta add_Scalar (Function f2)
       \<in> set (activate_meta example_dump activation_example)
   \<and> Call_meta_lib_impl add_Scalar (Function f2)
       \<notin> set (activate_meta example_dump activation_example)
   \<and> (\<exists>before after.
         activate_meta example_dump activation_example =
           before
           @ [Call_py_impl_Meta add_Scalar (Function f2),
              Call_dispatch_dump (dispatch_name add_Scalar)]
           @ after)
   \<and> (view_default, Function f1) \<in> set (build_activate_meta_table activation_example)
   \<and> is_view_op view_default
   \<and> Call_py_impl_Meta view_default (Function f1)
       \<in> set (activate_meta example_dump activation_example)
   \<and> Call_meta_lib_impl view_default (Function f1)
       \<notin> set (activate_meta example_dump activation_example)"
proof -
  have s: "(add_Scalar, Function f2) \<in> set (build_activate_meta_table activation_example)"
    and v: "(view_default, Function f1) \<in> set (build_activate_meta_table activation_example)"
    by (simp_all add: example_merge)
  have c: "sublist ''CompositeImplicitAutograd'' (example_dump (dispatch_name add_Scalar))"
    by (simp add: example_names example_dumps)
  from py_impl_registered_unconditionally[OF s, of example_dump] c
  have 1: "(\<exists>before after.
         activate_meta example_dump activation_example =
           before
           @ [Call_py_impl_Meta add_Scalar (Function f2),
              Call_dispatch_dump (dispatch_name add_Scalar)]
           @ after)
     \<and> Call_py_impl_Meta add_Scalar (Function f2)
       \<in> set (activate_meta example_dump activation_example)
     \<and> Call_meta_lib_impl add_Scalar (Function f2)
       \<notin> set (activate_meta example_dump activation_example)"
    by simp
  from py_impl_registered_unconditionally[OF v, of example_dump] example_views(4)
  have 2: "Call_py_impl_Meta view_default (Function f1)
       \<in> set (activate_meta example_dump activation_example)
     \<and> Call_meta_lib_impl view_default (Function f1)
       \<notin> set (activate_meta example_dump activation_example)"
    by simp
  from s v c 1 2 example_views(4) show ?thesis by blast
qed

end
